theory Spec2Isabelle
  imports Main "HOL-Library.Word"
begin

section \<open>The PresentationRecorder component\<close>

text \<open>
  The repository holds one React component, \<open>PresentationRecorder\<close>, in two versions:
  the complete one (\<open>src/unnamed/part_001\<close>) and an earlier one
  (\<open>src/unnamed/part_000\<close>) that ends inside \<open>startTimer\<close>. The component keeps its data
  in six refs and six state variables, and talks to the browser: \<open>getUserMedia\<close>,
  \<open>MediaRecorder\<close>, \<open>setInterval\<close>, \<open>Blob\<close>, and an anchor element for the download.

  The model is a record of the refs, the state variables and the part of the browser
  the component can observe or change (the \<open>MediaRecorder\<close> objects, the live interval
  timers), with a log of the browser calls the component makes. Every handler of the
  component is a function from component to component. What the browser decides (the outcome of
  \<open>getUserMedia\<close>, whether the encoder can be built, the clock) is an argument of the
  handler. Handlers read state variables as of the latest render, which is what the
  buttons of the rendered page are bound to.
\<close>

subsection \<open>Browser values\<close>

type_synonym byte = "8 word"

text \<open>A \<open>Blob\<close>: its bytes and its MIME type; \<open>blob.size\<close> is the number of bytes.\<close>

record blob =
  blob_data :: "byte list"
  blob_type :: string

definition blob_size :: "blob \<Rightarrow> nat" where
  "blob_size b = length (blob_data b)"

text \<open>\<open>new Blob(parts, { type })\<close> concatenates the parts in the order of the array.\<close>

definition new_Blob :: "blob list \<Rightarrow> string \<Rightarrow> blob" where
  "new_Blob parts ty = \<lparr>blob_data = concat (map blob_data parts), blob_type = ty\<rparr>"

text \<open>A thrown value: an \<open>Error\<close> object with its message, or anything else.\<close>

datatype js_value = JsError string | JsOther

text \<open>\<open>error instanceof Error ? error.message : 'Unknown error'\<close>\<close>

fun errorMessage :: "js_value \<Rightarrow> string" where
  "errorMessage (JsError m) = m"
| "errorMessage JsOther = ''Unknown error''"

text \<open>\<open>MediaRecorder.state\<close>\<close>

datatype recording_state = Inactive | Recording | Paused

text \<open>
  A \<open>MediaRecorder\<close> object. Its two handlers are the closures \<open>startRecording\<close> installs;
  they differ between recorders only in the captured \<open>mimeType\<close>, kept in \<open>rmime\<close>.
  \<open>flushing\<close> holds from \<open>stop()\<close> until the browser has fired the \<open>stop\<close> event: in that
  interval \<open>state\<close> is already \<open>inactive\<close> and the last \<open>dataavailable\<close> and \<open>stop\<close> events
  are still to come.
\<close>

record recorder =
  rstate :: recording_state
  rmime :: string
  rstream :: nat
  flushing :: bool

text \<open>The browser calls the component makes, in the order it makes them.\<close>

datatype call =
    TrackStop nat
  | RecorderStart nat nat
  | RecorderStop nat
  | SetInterval nat nat
  | ClearInterval nat
  | ConsoleError string
  | CreateObjectURL blob
  | AnchorClick string
  | SetTimeout nat

subsection \<open>The component\<close>

text \<open>
  Refs and state variables keep the names of the source. \<open>videoRef\<close> is \<open>None\<close> when the
  ref is null and \<open>Some so\<close> for a mounted video element whose \<open>srcObject\<close> is \<open>so\<close>.
  Streams, recorders and interval handles are identified by natural numbers; a recorder's
  identifier is its position in \<open>recorders\<close>. An interval handle stands for the positive
  integer \<open>setInterval\<close> returns, so a stored handle is always truthy.
  \<open>pendingGetUserMedia\<close> counts the calls of \<open>getUserMedia\<close> whose promise has not settled.
\<close>

record component =
  videoRef :: "nat option option"
  mediaStreamRef :: "nat option"
  mediaRecorderRef :: "nat option"
  recordedChunksRef :: "blob list"
  timerIntervalRef :: "nat option"
  recordingStartTimeRef :: "int option"
  isCameraActive :: bool
  isRecording :: bool
  recordedBlob :: "blob option"
  status :: string
  cameraError :: string
  timer :: string
  recorders :: "recorder list"
  intervals :: "nat list"
  nextHandle :: nat
  pendingGetUserMedia :: nat
  calls :: "call list"

text \<open>The component as first rendered.\<close>

definition initial :: component where
  "initial = \<lparr>videoRef = Some None, mediaStreamRef = None, mediaRecorderRef = None,
     recordedChunksRef = [], timerIntervalRef = None, recordingStartTimeRef = None,
     isCameraActive = False, isRecording = False, recordedBlob = None,
     status = ''Click \"Start Camera\" to begin'', cameraError = [], timer = ''00:00'',
     recorders = [], intervals = [], nextHandle = 0, pendingGetUserMedia = 0, calls = []\<rparr>"

text \<open>The recorder an identifier denotes, if there is one.\<close>

definition recorderAt :: "component \<Rightarrow> nat \<Rightarrow> recorder option" where
  "recorderAt s rid = (if rid < length (recorders s) then Some (recorders s ! rid) else None)"

subsection \<open>Numbers as text\<close>

text \<open>\<open>String(n)\<close> for an integer \<open>n\<close>: decimal digits, a minus sign when negative.\<close>

definition digit_char :: "nat \<Rightarrow> char" where
  "digit_char d = ''0123456789'' ! d"

fun nat_digits :: "nat \<Rightarrow> string" where
  "nat_digits n = (if n < 10 then [digit_char n] else nat_digits (n div 10) @ [digit_char (n mod 10)])"

declare nat_digits.simps [simp del]

definition String_int :: "int \<Rightarrow> string" where
  "String_int i = (if i < 0 then CHR ''-'' # nat_digits (nat (- i)) else nat_digits (nat i))"

text \<open>\<open>s.padStart(n, c)\<close> for a one-character pad string.\<close>

definition padStart :: "nat \<Rightarrow> char \<Rightarrow> string \<Rightarrow> string" where
  "padStart n c s = replicate (n - length s) c @ s"

text \<open>The remainder of JavaScript's \<open>%\<close> takes the sign of the dividend.\<close>

definition js_rem :: "int \<Rightarrow> int \<Rightarrow> int" where
  "js_rem a b = (if a < 0 then - ((- a) mod b) else a mod b)"

text \<open>
  The label a tick publishes for \<open>elapsed\<close> whole seconds:
  \<open>minutes = Math.floor(elapsed / 60)\<close>, \<open>seconds = elapsed % 60\<close>, both padded to two
  characters.
\<close>

definition formatElapsed :: "int \<Rightarrow> string" where
  "formatElapsed elapsed =
     padStart 2 (CHR ''0'') (String_int (elapsed div 60)) @ '':'' @
     padStart 2 (CHR ''0'') (String_int (js_rem elapsed 60))"

text \<open>
  \<open>(size / 1024 / 1024).toFixed(2)\<close>. Both divisions are by powers of two and exact in
  double precision for every size below \<open>2^53\<close>; \<open>toFixed(2)\<close> then takes the integer \<open>n\<close>
  with \<open>n / 100\<close> nearest to the quotient, the larger one on a tie, and prints \<open>n\<close> with
  two decimals.
\<close>

definition toFixed2_MB :: "nat \<Rightarrow> string" where
  "toFixed2_MB sz =
     (let n = (sz * 200 + 1048576) div 2097152
      in nat_digits (n div 100) @ ''.'' @ padStart 2 (CHR ''0'') (nat_digits (n mod 100)))"

subsection \<open>Browser operations on the component's objects\<close>

text \<open>
  \<open>recorder.stop()\<close>: nothing on an inactive recorder; otherwise the recorder becomes
  inactive at once and the browser queues the last \<open>dataavailable\<close> and the \<open>stop\<close> event.
\<close>

definition recorder_stop :: "nat \<Rightarrow> component \<Rightarrow> component" where
  "recorder_stop rid s =
     (case recorderAt s rid of
        None \<Rightarrow> s
      | Some r \<Rightarrow>
          if rstate r = Inactive then s\<lparr>calls := calls s @ [RecorderStop rid]\<rparr>
          else s\<lparr>recorders := (recorders s)[rid := r\<lparr>rstate := Inactive, flushing := True\<rparr>],
                 calls := calls s @ [RecorderStop rid]\<rparr>)"

text \<open>
  A recorder the browser stops by itself: when every track of its stream has ended (the
  camera is unplugged, the permission withdrawn) or the encoder fails, the recorder
  becomes inactive and the last \<open>dataavailable\<close> and the \<open>stop\<close> event follow, as after
  \<open>stop()\<close>. The component has no handler for it.
\<close>

definition recorder_ends :: "nat \<Rightarrow> component \<Rightarrow> component" where
  "recorder_ends rid s =
     (case recorderAt s rid of
        None \<Rightarrow> s
      | Some r \<Rightarrow>
          if rstate r = Inactive then s
          else s\<lparr>recorders := (recorders s)[rid := r\<lparr>rstate := Inactive, flushing := True\<rparr>]\<rparr>)"

subsection \<open>Camera functions\<close>

text \<open>\<open>stopCamera\<close> (part_001 lines 21-30, part_000 lines 58-67)\<close>

definition stopCamera :: "component \<Rightarrow> component" where
  "stopCamera s =
     (case mediaStreamRef s of
        None \<Rightarrow> s
      | Some st \<Rightarrow>
          s\<lparr>mediaStreamRef := None,
            videoRef := (case videoRef s of None \<Rightarrow> None | Some so \<Rightarrow> Some None),
            isCameraActive := False,
            calls := calls s @ [TrackStop st]\<rparr>)"

text \<open>
  \<open>startCamera\<close> (part_001 lines 55-80, part_000 lines 31-56) up to its \<open>await\<close>: it calls
  \<open>getUserMedia\<close> and writes nothing.
\<close>

definition startCamera_call :: "component \<Rightarrow> component" where
  "startCamera_call s = s\<lparr>pendingGetUserMedia := Suc (pendingGetUserMedia s)\<rparr>"

text \<open>
  \<open>startCamera\<close> from the point where \<open>getUserMedia\<close> settles: \<open>Inr st\<close> when it resolves
  with stream \<open>st\<close>, \<open>Inl e\<close> when it rejects with \<open>e\<close>.
\<close>

definition startCamera :: "js_value + nat \<Rightarrow> component \<Rightarrow> component" where
  "startCamera res s =
     (case res of
        Inr st \<Rightarrow>
          s\<lparr>mediaStreamRef := Some st,
            videoRef := (case videoRef s of None \<Rightarrow> None | Some so \<Rightarrow> Some (Some st)),
            isCameraActive := True,
            cameraError := [],
            status := ''Click to Start Recording''\<rparr>
      | Inl e \<Rightarrow>
          s\<lparr>cameraError := ''Camera Error: '' @ errorMessage e,
            status := ''Failed to access camera'',
            calls := calls s @ [ConsoleError ''Error accessing camera:'']\<rparr>)"

subsection \<open>Timer functions\<close>

text \<open>\<open>stopTimer\<close> (part_001 lines 32-37)\<close>

definition stopTimer :: "component \<Rightarrow> component" where
  "stopTimer s =
     (case timerIntervalRef s of
        None \<Rightarrow> s
      | Some h \<Rightarrow>
          s\<lparr>intervals := removeAll h (intervals s),
            timerIntervalRef := None,
            calls := calls s @ [ClearInterval h]\<rparr>)"

text \<open>\<open>startTimer\<close> (part_001 lines 127-137); \<open>now\<close> is what \<open>Date.now()\<close> returns.\<close>

definition startTimer :: "int \<Rightarrow> component \<Rightarrow> component" where
  "startTimer now s =
     (let h = Suc (nextHandle s)
      in s\<lparr>recordingStartTimeRef := Some now,
           timerIntervalRef := Some h,
           intervals := intervals s @ [h],
           nextHandle := h,
           calls := calls s @ [SetInterval h 1000]\<rparr>)"

text \<open>The interval callback of \<open>startTimer\<close> (part_001 lines 129-136).\<close>

definition tick :: "int \<Rightarrow> component \<Rightarrow> component" where
  "tick now s =
     (case recordingStartTimeRef s of
        None \<Rightarrow> s
      | Some t0 \<Rightarrow> s\<lparr>timer := formatElapsed ((now - t0) div 1000)\<rparr>)"

subsection \<open>Recording functions\<close>

text \<open>
  \<open>stopRecording\<close> of part_001 (lines 39-45): the guard reads the recorder's own state.
\<close>

definition stopRecording :: "component \<Rightarrow> component" where
  "stopRecording s =
     (case mediaRecorderRef s of
        None \<Rightarrow> s
      | Some rid \<Rightarrow>
          (case recorderAt s rid of
             None \<Rightarrow> s
           | Some r \<Rightarrow>
               if rstate r \<noteq> Inactive
               then stopTimer ((recorder_stop rid s)\<lparr>isRecording := False\<rparr>)
               else s))"

text \<open>
  \<open>stopRecording\<close> of part_000 (lines 113-119): the guard reads the state variable
  \<open>isRecording\<close> as captured by the closure, here the argument \<open>ir\<close>. \<open>stopTimer\<close> lies
  beyond the end of part_000, so the function takes it as the argument \<open>st\<close>.
\<close>

definition stopRecording_p0 :: "(component \<Rightarrow> component) \<Rightarrow> bool \<Rightarrow> component \<Rightarrow> component" where
  "stopRecording_p0 st ir s =
     (case mediaRecorderRef s of
        None \<Rightarrow> s
      | Some rid \<Rightarrow>
          if ir then st ((recorder_stop rid s)\<lparr>isRecording := False\<rparr>) else s)"

text \<open>What constructing and starting the encoder can do.\<close>

datatype encoder_outcome = CtorThrows js_value | StartThrows js_value | Started

definition chooseMimeType :: "bool \<Rightarrow> string" where
  "chooseMimeType vp9 = (if vp9 then ''video/webm; codecs=vp9'' else ''video/webm'')"

text \<open>
  \<open>startRecording\<close> (part_001 lines 83-124, part_000 lines 70-111). \<open>vp9\<close> is the answer of
  \<open>MediaRecorder.isTypeSupported\<close>, \<open>oc\<close> what the constructor and \<open>recorder.start(100)\<close> do,
  \<open>now\<close> the clock read by \<open>startTimer\<close>.
\<close>

definition startRecording :: "bool \<Rightarrow> encoder_outcome \<Rightarrow> int \<Rightarrow> component \<Rightarrow> component" where
  "startRecording vp9 oc now s =
     (case mediaStreamRef s of
        None \<Rightarrow> s\<lparr>status := ''Camera not active''\<rparr>
      | Some stream \<Rightarrow>
          if \<not> isCameraActive s then s\<lparr>status := ''Camera not active''\<rparr>
          else
            let s1 = s\<lparr>recordedChunksRef := [], recordedBlob := None\<rparr>;
                mimeType = chooseMimeType vp9;
                rid = length (recorders s1)
            in case oc of
                 CtorThrows e \<Rightarrow>
                   s1\<lparr>status := ''Failed to start recording: '' @ errorMessage e,
                      calls := calls s1 @ [ConsoleError ''Error starting recording:'']\<rparr>
               | StartThrows e \<Rightarrow>
                   s1\<lparr>recorders := recorders s1 @
                        [\<lparr>rstate = Inactive, rmime = mimeType, rstream = stream, flushing = False\<rparr>],
                      status := ''Failed to start recording: '' @ errorMessage e,
                      calls := calls s1 @
                        [RecorderStart rid 100, ConsoleError ''Error starting recording:'']\<rparr>
               | Started \<Rightarrow>
                   let s2 = startTimer now
                        (s1\<lparr>recorders := recorders s1 @
                              [\<lparr>rstate = Recording, rmime = mimeType, rstream = stream, flushing = False\<rparr>],
                            mediaRecorderRef := Some rid,
                            isRecording := True,
                            calls := calls s1 @ [RecorderStart rid 100]\<rparr>)
                   in s2\<lparr>status := ''RECORDING...''\<rparr>)"

text \<open>\<open>recorder.ondataavailable\<close> (part_001 lines 102-106, part_000 lines 89-93)\<close>

definition ondataavailable :: "blob \<Rightarrow> component \<Rightarrow> component" where
  "ondataavailable d s =
     (if blob_size d > 0 then s\<lparr>recordedChunksRef := recordedChunksRef s @ [d]\<rparr> else s)"

text \<open>
  \<open>recorder.onstop\<close> (part_001 lines 108-112, part_000 lines 95-99) of a recorder built
  with \<open>mimeType\<close>.
\<close>

definition onstop :: "string \<Rightarrow> component \<Rightarrow> component" where
  "onstop mimeType s =
     (let b = new_Blob (recordedChunksRef s) mimeType
      in s\<lparr>recordedBlob := Some b,
           status := ''Recording complete! Size: '' @ toFixed2_MB (blob_size b) @ '' MB''\<rparr>)"

subsection \<open>Download\<close>

text \<open>\<open>.replace(/[:.]/g, '-')\<close>\<close>

definition replaceColonDot :: "string \<Rightarrow> string" where
  "replaceColonDot t = map (\<lambda>c. if c = CHR '':'' \<or> c = CHR ''.'' then CHR ''-'' else c) t"

definition downloadName :: "string \<Rightarrow> string" where
  "downloadName isoString = ''presentation_'' @ replaceColonDot isoString @ ''.webm''"

text \<open>
  \<open>downloadVideo\<close> (part_001 lines 140-157); \<open>isoString\<close> is what \<open>new Date().toISOString()\<close>
  returns.
\<close>

definition downloadVideo :: "string \<Rightarrow> component \<Rightarrow> component" where
  "downloadVideo isoString s =
     (case recordedBlob s of
        None \<Rightarrow> s
      | Some b \<Rightarrow>
          s\<lparr>status := ''Video downloaded successfully!'',
            calls := calls s @ [CreateObjectURL b, AnchorClick (downloadName isoString), SetTimeout 100]\<rparr>)"

subsection \<open>Cleanup on unmount\<close>

text \<open>The effect cleanup of part_001 (lines 48-53).\<close>

definition cleanup :: "component \<Rightarrow> component" where
  "cleanup s = stopCamera (stopRecording s)"

text \<open>
  The effect cleanup of part_000 (lines 21-28); \<open>ir\<close> is the \<open>isRecording\<close> its closure
  captured, the same render's value that its \<open>stopRecording\<close> reads.
\<close>

definition cleanup_p0 :: "(component \<Rightarrow> component) \<Rightarrow> bool \<Rightarrow> component \<Rightarrow> component" where
  "cleanup_p0 st ir s = stopCamera (if ir then stopRecording_p0 st ir s else s)"

text \<open>
  At unmount the cleanup that runs is the one of the latest render, whose closure holds
  the current \<open>isRecording\<close>.
\<close>

definition unmount_p0 :: "(component \<Rightarrow> component) \<Rightarrow> component \<Rightarrow> component" where
  "unmount_p0 st s = cleanup_p0 st (isRecording s) s"

subsection \<open>What the page offers, and runs of the component\<close>

text \<open>
  The things that can happen to a mounted component: a click on one of its four buttons
  (with what the browser will answer), the settling of a \<open>getUserMedia\<close> promise, an event
  of a \<open>MediaRecorder\<close>, a recorder stopped by the browser, a tick of an interval timer,
  and the unmount.
\<close>

datatype event =
    ClickStartCamera
  | GetUserMediaSettles "js_value + nat"
  | ClickStartRecording bool encoder_outcome int
  | ClickStopRecording
  | ClickDownload string
  | DataAvailable nat blob
  | StopEvent nat
  | RecorderEnds nat
  | IntervalTick nat int
  | Unmount

text \<open>
  When an event can happen. A button can be clicked when the JSX renders it
  (part_001 lines 206-244): Start Camera under \<open>!isCameraActive\<close>, Start Recording under
  \<open>isCameraActive && !isRecording\<close>, Stop Recording under \<open>isRecording\<close>, Download under
  \<open>recordedBlob\<close>. A promise settles when one is pending. A recorder delivers data while
  it records or flushes, fires \<open>stop\<close> only once it has been stopped, and can be stopped by
  the browser while it is not inactive; only a live interval ticks.
\<close>

fun offered :: "component \<Rightarrow> event \<Rightarrow> bool" where
  "offered s ClickStartCamera = (\<not> isCameraActive s)"
| "offered s (GetUserMediaSettles res) = (0 < pendingGetUserMedia s)"
| "offered s (ClickStartRecording vp9 oc now) = (isCameraActive s \<and> \<not> isRecording s)"
| "offered s ClickStopRecording = isRecording s"
| "offered s (ClickDownload isoString) = (recordedBlob s \<noteq> None)"
| "offered s (DataAvailable rid d) =
     (case recorderAt s rid of None \<Rightarrow> False | Some r \<Rightarrow> rstate r = Recording \<or> flushing r)"
| "offered s (StopEvent rid) =
     (case recorderAt s rid of None \<Rightarrow> False | Some r \<Rightarrow> flushing r)"
| "offered s (RecorderEnds rid) =
     (case recorderAt s rid of None \<Rightarrow> False | Some r \<Rightarrow> rstate r \<noteq> Inactive)"
| "offered s (IntervalTick h now) = (h \<in> set (intervals s))"
| "offered s Unmount = True"

text \<open>
  What happens on an event: the handler of part_001 bound to it. At unmount React has
  detached \<open>videoRef\<close> before the effect cleanup runs.
\<close>

fun fire :: "event \<Rightarrow> component \<Rightarrow> component" where
  "fire ClickStartCamera s = startCamera_call s"
| "fire (GetUserMediaSettles res) s =
     startCamera res (s\<lparr>pendingGetUserMedia := pendingGetUserMedia s - 1\<rparr>)"
| "fire (ClickStartRecording vp9 oc now) s = startRecording vp9 oc now s"
| "fire ClickStopRecording s = stopRecording s"
| "fire (ClickDownload isoString) s = downloadVideo isoString s"
| "fire (DataAvailable rid d) s = ondataavailable d s"
| "fire (StopEvent rid) s =
     (case recorderAt s rid of
        None \<Rightarrow> s
      | Some r \<Rightarrow> onstop (rmime r) (s\<lparr>recorders := (recorders s)[rid := r\<lparr>flushing := False\<rparr>]\<rparr>))"
| "fire (RecorderEnds rid) s = recorder_ends rid s"
| "fire (IntervalTick h now) s = tick now s"
| "fire Unmount s = cleanup (s\<lparr>videoRef := None\<rparr>)"

text \<open>A run: the events in order, each one offered when it happens.\<close>

fun run :: "event list \<Rightarrow> component \<Rightarrow> component option" where
  "run [] s = Some s"
| "run (e # es) s = (if offered s e then run es (fire e s) else None)"

text \<open>The fragments the recorder \<open>rid\<close> delivers in a run, in order of delivery.\<close>

fun delivered :: "nat \<Rightarrow> event list \<Rightarrow> blob list" where
  "delivered rid [] = []"
| "delivered rid (DataAvailable r d # es) = (if r = rid then d # delivered rid es else delivered rid es)"
| "delivered rid (e # es) = delivered rid es"

fun isStartRecording :: "event \<Rightarrow> bool" where
  "isStartRecording (ClickStartRecording vp9 oc now) = True"
| "isStartRecording e = False"

fun isStopEvent :: "event \<Rightarrow> bool" where
  "isStopEvent (StopEvent rid) = True"
| "isStopEvent e = False"

fun isRecorderEnds :: "event \<Rightarrow> bool" where
  "isRecorderEnds (RecorderEnds rid) = True"
| "isRecorderEnds e = False"

subsection \<open>Runs of part_000\<close>

text \<open>
  part_000 declares its cleanup effect with the dependency list \<open>[isRecording]\<close> (line 28).
  After every render in which \<open>isRecording\<close> has changed React therefore runs the cleanup
  of the previous render, whose closure holds the value from before the change, and only
  then installs the new one. \<open>old\<close> is that value.
\<close>

definition effectRerun_p0 :: "(component \<Rightarrow> component) \<Rightarrow> bool \<Rightarrow> component \<Rightarrow> component" where
  "effectRerun_p0 st old s = (if isRecording s \<noteq> old then cleanup_p0 st old s else s)"

text \<open>
  What happens in part_000 on an event. Its handlers are those of part_001 except
  \<open>stopRecording\<close>; part_000 ends before its timer functions and its JSX, which are taken
  from part_001 (the timer stop as the argument \<open>st\<close>).
\<close>

fun handler_p0 :: "(component \<Rightarrow> component) \<Rightarrow> event \<Rightarrow> component \<Rightarrow> component" where
  "handler_p0 st ClickStopRecording s = stopRecording_p0 st (isRecording s) s"
| "handler_p0 st e s = fire e s"

fun fire_p0 :: "(component \<Rightarrow> component) \<Rightarrow> event \<Rightarrow> component \<Rightarrow> component" where
  "fire_p0 st Unmount s = unmount_p0 st (s\<lparr>videoRef := None\<rparr>)"
| "fire_p0 st e s = effectRerun_p0 st (isRecording s) (handler_p0 st e s)"

fun run_p0 :: "(component \<Rightarrow> component) \<Rightarrow> event list \<Rightarrow> component \<Rightarrow> component option" where
  "run_p0 st [] s = Some s"
| "run_p0 st (e # es) s = (if offered s e then run_p0 st es (fire_p0 st e s) else None)"

subsection \<open>The session state of the specification\<close>

text \<open>
  The component stores no session state; the specification derives one from what exists.
  Read off the flags the JSX branches on: no camera is \<open>Idle\<close>, a camera with a recording
  is \<open>Recording\<close>, a camera with an artifact and no recording is \<open>Recorded\<close>, a camera alone
  is \<open>CameraReady\<close>.
\<close>

datatype session_state = Idle | CameraReady | RecordingNow | Recorded

definition sessionState :: "component \<Rightarrow> session_state" where
  "sessionState s =
     (if \<not> isCameraActive s then Idle
      else if isRecording s then RecordingNow
      else if recordedBlob s \<noteq> None then Recorded
      else CameraReady)"

definition hasArtifact :: "component \<Rightarrow> bool" where
  "hasArtifact s = (recordedBlob s \<noteq> None)"


text \<open>No encoder is recording and none awaits its \<open>stop\<close> event.\<close>

definition quiescent :: "component \<Rightarrow> bool" where
  "quiescent s = list_all (\<lambda>r. rstate r = Inactive \<and> \<not> flushing r) (recorders s)"

text \<open>Some encoder is recording (or paused).\<close>

definition encoderActive :: "component \<Rightarrow> bool" where
  "encoderActive s = list_ex (\<lambda>r. rstate r \<noteq> Inactive) (recorders s)"

text \<open>
  The flags, the refs and the browser's objects agree: the camera flag says whether a
  stream is held, the recording flag says whether the recorder in \<open>mediaRecorderRef\<close>
  records, no other recorder is active, and the only live interval is the one in
  \<open>timerIntervalRef\<close>, present exactly while recording.
\<close>

definition coherent :: "component \<Rightarrow> bool" where
  "coherent s =
     ((isCameraActive s \<longleftrightarrow> mediaStreamRef s \<noteq> None) \<and>
      (isRecording s \<longleftrightarrow> timerIntervalRef s \<noteq> None) \<and>
      intervals s = (case timerIntervalRef s of None \<Rightarrow> [] | Some h \<Rightarrow> [h]) \<and>
      (isRecording s \<longrightarrow>
         (case mediaRecorderRef s of None \<Rightarrow> False
          | Some rid \<Rightarrow> rid < length (recorders s) \<and> rstate (recorders s ! rid) = Recording)) \<and>
      (\<forall>i < length (recorders s). rstate (recorders s ! i) \<noteq> Inactive \<longrightarrow>
         isRecording s \<and> mediaRecorderRef s = Some i))"

text \<open>
  A recording is active as part_001's \<open>stopRecording\<close> judges it: \<open>mediaRecorderRef\<close>
  holds a recorder whose state is not \<open>inactive\<close>.
\<close>

definition recordingActive :: "component \<Rightarrow> bool" where
  "recordingActive s =
     (case mediaRecorderRef s of
        None \<Rightarrow> False
      | Some rid \<Rightarrow> (case recorderAt s rid of None \<Rightarrow> False | Some r \<Rightarrow> rstate r \<noteq> Inactive))"

subsection \<open>Concrete sessions\<close>

text \<open>A fragment of \<open>n\<close> zero bytes.\<close>

definition fragment :: "nat \<Rightarrow> blob" where
  "fragment n = \<lparr>blob_data = replicate n 0, blob_type = ''video/webm; codecs=vp9''\<rparr>"

text \<open>The camera has been acquired (stream 7).\<close>

definition cameraReady :: component where
  "cameraReady = startCamera (Inr 7) initial"

text \<open>A fragment with the given bytes.\<close>

definition chunk :: "byte list \<Rightarrow> blob" where
  "chunk bs = \<lparr>blob_data = bs, blob_type = ''video/webm; codecs=vp9''\<rparr>"

text \<open>A first recording is running, started at clock reading 1000.\<close>

definition recordingOnce :: component where
  "recordingOnce = startRecording True Started 1000 cameraReady"

text \<open>
  The first recording has received one fragment of three bytes, ticked at clock reading
  6000, been stopped, and its \<open>stop\<close> event has fired.
\<close>

definition recordedOnce :: component where
  "recordedOnce =
     fire (StopEvent 0) (stopRecording (tick 6000 (ondataavailable (fragment 3) recordingOnce)))"

text \<open>The events that lead from the first render to \<open>recordingOnce\<close>.\<close>

definition toRecordingOnce :: "event list" where
  "toRecordingOnce =
     [ClickStartCamera, GetUserMediaSettles (Inr 7), ClickStartRecording True Started 1000]"

text \<open>The events that lead from the first render to \<open>recordedOnce\<close>.\<close>

definition firstRecording :: "event list" where
  "firstRecording =
     [ClickStartCamera, GetUserMediaSettles (Inr 7), ClickStartRecording True Started 1000,
      DataAvailable 0 (fragment 3), IntervalTick 1 6000, ClickStopRecording, StopEvent 0]"

text \<open>
  A second recording started before the first has fired its \<open>stop\<close> event. The first
  encoder delivers the bytes 1, 1 and is stopped (\<open>stopWindow\<close>); Start Recording is
  clicked again at once (\<open>secondStarted\<close>); the first encoder's last fragment, the byte 2,
  and its \<open>stop\<close> event arrive (\<open>firstFinalized\<close>); the second encoder delivers 3, 4 and is
  stopped (\<open>secondStopped\<close>); its \<open>stop\<close> event fires (\<open>secondFinalized\<close>).
\<close>

definition toStopWindow :: "event list" where
  "toStopWindow = toRecordingOnce @ [DataAvailable 0 (chunk [1, 1]), ClickStopRecording]"

definition toFirstFinalized :: "event list" where
  "toFirstFinalized =
     toStopWindow @
     [ClickStartRecording True Started 2000, DataAvailable 0 (chunk [2]), StopEvent 0]"

definition toSecondStopped :: "event list" where
  "toSecondStopped = toFirstFinalized @ [DataAvailable 1 (chunk [3, 4]), ClickStopRecording]"

definition stopWindow :: component where
  "stopWindow = stopRecording (ondataavailable (chunk [1, 1]) recordingOnce)"

definition secondStarted :: component where
  "secondStarted = startRecording True Started 2000 stopWindow"

definition firstFinalized :: component where
  "firstFinalized = fire (StopEvent 0) (ondataavailable (chunk [2]) secondStarted)"

definition secondStopped :: component where
  "secondStopped = stopRecording (ondataavailable (chunk [3, 4]) firstFinalized)"

definition secondFinalized :: component where
  "secondFinalized = fire (StopEvent 1) secondStopped"

text \<open>
  What happens to the first recording in the first scenario of the specification: five
  fragments of 10, 0, 20, 5 and 0 bytes, a tick in between, and the click on Stop
  Recording before the last, empty fragment.
\<close>

definition scenarioA :: "event list" where
  "scenarioA =
     [DataAvailable 0 (fragment 10), DataAvailable 0 (fragment 0), DataAvailable 0 (fragment 20),
      IntervalTick 1 2500, DataAvailable 0 (fragment 5), ClickStopRecording,
      DataAvailable 0 (fragment 0)]"

section \<open>Lemmas\<close>

subsection \<open>One event at a time\<close>

lemmas handler_defs = startCamera_def stopCamera_def startTimer_def stopTimer_def tick_def
  stopRecording_def startRecording_def ondataavailable_def onstop_def downloadVideo_def
  cleanup_def recorder_stop_def recorderAt_def startCamera_call_def recorder_ends_def

lemma recorders_fire_length:
  "\<not> isStartRecording e \<Longrightarrow> length (recorders (fire e s)) = length (recorders s)"
  by (cases e) (simp_all add: handler_defs Let_def split: option.splits sum.splits)

lemma chunks_fire:
  "\<not> isStartRecording e \<Longrightarrow>
   recordedChunksRef (fire e s) =
     recordedChunksRef s @ (case e of DataAvailable r d \<Rightarrow> if 0 < blob_size d then [d] else [] | _ \<Rightarrow> [])"
  by (cases e) (simp_all add: handler_defs Let_def split: option.splits sum.splits)

lemma recorders_fire_nth:
  assumes "\<not> isStartRecording e" "i < length (recorders s)"
  shows "rmime (recorders (fire e s) ! i) = rmime (recorders s ! i)"
    and "rstate (recorders s ! i) = Inactive \<Longrightarrow> rstate (recorders (fire e s) ! i) = Inactive"
    and "\<not> flushing (recorders s ! i) \<Longrightarrow> rstate (recorders s ! i) = Inactive \<Longrightarrow> \<not> flushing (recorders (fire e s) ! i)"
  using assms
  by (cases e; simp add: handler_defs Let_def nth_list_update split: option.splits sum.splits)+

lemma offered_data_only_current:
  assumes "length (recorders t) = Suc rid"
    and "\<forall>i<rid. rstate (recorders t ! i) = Inactive \<and> \<not> flushing (recorders t ! i)"
    and "offered t (DataAvailable r d)"
  shows "r = rid"
proof (rule ccontr)
  assume "r \<noteq> rid"
  from assms(3) have "r < length (recorders t)"
    by (simp add: recorderAt_def split: if_splits)
  with assms(1) \<open>r \<noteq> rid\<close> have "r < rid" by simp
  with assms(2,3) show False
    by (auto simp: recorderAt_def split: if_splits)
qed

lemma delivered_append: "delivered rid (xs @ ys) = delivered rid xs @ delivered rid ys"
  by (induction rid xs rule: delivered.induct) simp_all

lemma cycle_chunks:
  assumes "run evs t = Some t'"
    and "\<not> list_ex isStartRecording evs"
    and "length (recorders t) = Suc rid"
    and "\<forall>i<rid. rstate (recorders t ! i) = Inactive \<and> \<not> flushing (recorders t ! i)"
  shows "length (recorders t') = Suc rid \<and>
         rmime (recorders t' ! rid) = rmime (recorders t ! rid) \<and>
         recordedChunksRef t' =
           recordedChunksRef t @ filter (\<lambda>d. 0 < blob_size d) (delivered rid evs)"
  using assms
proof (induction evs arbitrary: t)
  case Nil
  then show ?case by simp
next
  case (Cons e es)
  from Cons.prems(1) have off: "offered t e" and rest: "run es (fire e t) = Some t'"
    by (simp_all split: if_splits)
  from Cons.prems(2) have ne: "\<not> isStartRecording e" and nes: "\<not> list_ex isStartRecording es"
    by simp_all
  have len: "length (recorders (fire e t)) = Suc rid"
    using ne Cons.prems(3) by (simp add: recorders_fire_length)
  have quiet: "\<forall>i<rid. rstate (recorders (fire e t) ! i) = Inactive \<and> \<not> flushing (recorders (fire e t) ! i)"
    using ne Cons.prems(3,4) by (simp add: recorders_fire_nth)
  have mime: "rmime (recorders (fire e t) ! rid) = rmime (recorders t ! rid)"
    using ne Cons.prems(3) by (simp add: recorders_fire_nth)
  have chunk: "recordedChunksRef (fire e t) =
      recordedChunksRef t @ filter (\<lambda>d. 0 < blob_size d) (delivered rid [e])"
  proof (cases e)
    case (DataAvailable r d)
    with off Cons.prems(3,4) have "r = rid"
      using offered_data_only_current by blast
    with DataAvailable show ?thesis by (simp add: ondataavailable_def)
  qed (use chunks_fire [OF ne, of t] in simp_all)
  from Cons.IH [OF rest nes len quiet] mime chunk
  show ?case
    using delivered_append [of rid "[e]" es] by simp
qed

lemma concat_nonempty:
  "concat (map blob_data (filter (\<lambda>d. 0 < blob_size d) ds)) = concat (map blob_data ds)"
  by (induction ds) (simp_all add: blob_size_def)

lemma length_concat_blobs:
  "length (concat (map blob_data ds)) = sum_list (map blob_size ds)"
  by (induction ds) (simp_all add: blob_size_def)

subsection \<open>Flags, refs and browser objects agree\<close>

lemma coherent_startCamera:
  "coherent s \<Longrightarrow> coherent (startCamera res s)"
  by (cases res) (auto simp: coherent_def startCamera_def split: option.splits)

lemma coherent_stopCamera: "coherent s \<Longrightarrow> coherent (stopCamera s)"
  by (auto simp: coherent_def stopCamera_def split: option.splits)

lemma coherent_idle_encoders:
  "coherent s \<Longrightarrow> \<not> isRecording s \<Longrightarrow> \<forall>i<length (recorders s). rstate (recorders s ! i) = Inactive"
  by (auto simp: coherent_def)

lemma coherent_startRecording:
  assumes "coherent s" "\<not> isRecording s"
  shows "coherent (startRecording vp9 oc now s)"
proof -
  from assms have idle: "\<forall>i<length (recorders s). rstate (recorders s ! i) = Inactive"
    by (rule coherent_idle_encoders)
  from assms have tm: "timerIntervalRef s = None" "intervals s = []"
    by (auto simp: coherent_def)
  show ?thesis
  proof (cases oc)
    case (CtorThrows e)
    with assms show ?thesis
      by (auto simp: coherent_def startRecording_def Let_def split: option.splits)
  next
    case (StartThrows e)
    with assms idle show ?thesis
      by (auto simp: coherent_def startRecording_def Let_def nth_append less_Suc_eq split: option.splits)
  next
    case Started
    with assms idle tm show ?thesis
      by (auto simp: coherent_def startRecording_def startTimer_def Let_def nth_append less_Suc_eq
          split: option.splits)
  qed
qed

lemma coherent_active:
  "coherent s \<Longrightarrow> i < length (recorders s) \<Longrightarrow> rstate (recorders s ! i) \<noteq> Inactive \<Longrightarrow>
   isRecording s \<and> mediaRecorderRef s = Some i"
  unfolding coherent_def by blast

lemma stopRecording_inactive: "\<not> recordingActive s \<Longrightarrow> stopRecording s = s"
  by (simp add: recordingActive_def stopRecording_def split: option.splits)

lemma recordingActiveE:
  assumes "recordingActive s"
  obtains rid where "mediaRecorderRef s = Some rid" "rid < length (recorders s)"
    "rstate (recorders s ! rid) \<noteq> Inactive"
  using assms by (auto simp: recordingActive_def recorderAt_def split: option.splits if_splits)

lemma stopRecording_active:
  assumes "mediaRecorderRef s = Some rid" "rid < length (recorders s)"
    "rstate (recorders s ! rid) \<noteq> Inactive"
  shows "isRecording (stopRecording s) = False"
    and "timerIntervalRef (stopRecording s) = None"
    and "intervals (stopRecording s) =
           (case timerIntervalRef s of None \<Rightarrow> intervals s | Some h \<Rightarrow> removeAll h (intervals s))"
    and "recorders (stopRecording s) =
           (recorders s)[rid := (recorders s ! rid)\<lparr>rstate := Inactive, flushing := True\<rparr>]"
    and "calls (stopRecording s) =
           calls s @ [RecorderStop rid] @
           (case timerIntervalRef s of None \<Rightarrow> [] | Some h \<Rightarrow> [ClearInterval h])"
    and "mediaStreamRef (stopRecording s) = mediaStreamRef s"
    and "isCameraActive (stopRecording s) = isCameraActive s"
    and "mediaRecorderRef (stopRecording s) = mediaRecorderRef s"
    and "recordedBlob (stopRecording s) = recordedBlob s"
    and "recordedChunksRef (stopRecording s) = recordedChunksRef s"
    and "videoRef (stopRecording s) = videoRef s"
  using assms
  by (simp_all add: stopRecording_def recorder_stop_def recorderAt_def stopTimer_def
      split: option.splits)

lemma coherent_stopRecording:
  assumes c: "coherent s"
  shows "coherent (stopRecording s)"
proof (cases "recordingActive s")
  case False
  with c show ?thesis by (simp add: stopRecording_inactive)
next
  case True
  then obtain rid where ref: "mediaRecorderRef s = Some rid" and lt: "rid < length (recorders s)"
    and act: "rstate (recorders s ! rid) \<noteq> Inactive"
    by (rule recordingActiveE)
  from c lt act have "isRecording s" by (simp add: coherent_active)
  with c obtain h where tm: "timerIntervalRef s = Some h" "intervals s = [h]"
    by (auto simp: coherent_def)
  have others: "\<forall>i<length (recorders s). i \<noteq> rid \<longrightarrow> rstate (recorders s ! i) = Inactive"
    using coherent_active [OF c] ref by fastforce
  from c have cam: "isCameraActive s \<longleftrightarrow> mediaStreamRef s \<noteq> None"
    by (simp add: coherent_def)
  show ?thesis
    unfolding coherent_def
    using stopRecording_active [OF ref lt act] tm others lt cam
    by (simp add: nth_list_update)
qed

lemma coherent_frame [simp]:
  "coherent (s\<lparr>videoRef := v\<rparr>) = coherent s"
  "coherent (s\<lparr>pendingGetUserMedia := n\<rparr>) = coherent s"
  by (simp_all add: coherent_def cong: option.case_cong)

lemma coherent_fire:
  assumes "coherent s" and "offered s e" and "\<not> isRecorderEnds e"
  shows "coherent (fire e s)"
proof (cases e)
  case ClickStartCamera
  with assms show ?thesis by (simp add: startCamera_call_def)
next
  case (GetUserMediaSettles res)
  with assms show ?thesis by (simp add: coherent_startCamera)
next
  case (ClickStartRecording vp9 oc now)
  with assms show ?thesis by (simp add: coherent_startRecording)
next
  case ClickStopRecording
  with assms show ?thesis by (simp add: coherent_stopRecording)
next
  case (ClickDownload x)
  with assms show ?thesis
    by (auto simp: coherent_def downloadVideo_def split: option.splits)
next
  case (DataAvailable r d)
  with assms show ?thesis
    by (auto simp: coherent_def ondataavailable_def split: option.splits)
next
  case (StopEvent r)
  with assms show ?thesis
    by (auto simp: coherent_def onstop_def recorderAt_def Let_def nth_list_update
        split: option.splits if_splits)
next
  case (RecorderEnds r)
  with assms show ?thesis by simp
next
  case (IntervalTick h now)
  with assms show ?thesis
    by (auto simp: coherent_def tick_def split: option.splits)
next
  case Unmount
  with assms show ?thesis
    by (simp add: cleanup_def coherent_stopRecording coherent_stopCamera)
qed

lemma coherent_initial: "coherent initial"
  by (simp add: coherent_def initial_def)

lemma coherent_run:
  "coherent s \<Longrightarrow> run evs s = Some t \<Longrightarrow> \<not> list_ex isRecorderEnds evs \<Longrightarrow> coherent t"
proof (induction evs arbitrary: s)
  case Nil
  then show ?case by simp
next
  case (Cons e es)
  from Cons.prems(2) have "offered s e" and rest: "run es (fire e s) = Some t"
    by (simp_all split: if_splits)
  with Cons.prems(1,3) have "coherent (fire e s)" by (simp add: coherent_fire)
  from Cons.IH [OF this rest] Cons.prems(3) show ?case by simp
qed

lemma stopRecording_not_active: "\<not> recordingActive (stopRecording s)"
proof (cases "recordingActive s")
  case False
  then show ?thesis by (simp add: stopRecording_inactive)
next
  case True
  then obtain rid where ref: "mediaRecorderRef s = Some rid" and lt: "rid < length (recorders s)"
    and act: "rstate (recorders s ! rid) \<noteq> Inactive"
    by (rule recordingActiveE)
  from stopRecording_active(4,8) [OF ref lt act] ref lt show ?thesis
    by (simp add: recordingActive_def recorderAt_def)
qed

lemma recordingActive_stopCamera: "recordingActive (stopCamera s) = recordingActive s"
  by (simp add: recordingActive_def recorderAt_def stopCamera_def split: option.splits)

lemma stopCamera_released: "mediaStreamRef s = None \<Longrightarrow> stopCamera s = s"
  by (simp add: stopCamera_def)

lemma mediaStreamRef_stopCamera: "mediaStreamRef (stopCamera s) = None"
  by (simp add: stopCamera_def split: option.splits)

lemma stopRecording_stopCamera:
  "\<not> recordingActive s \<Longrightarrow> stopRecording (stopCamera s) = stopCamera s"
  by (simp add: stopRecording_inactive recordingActive_stopCamera)

lemma cleanup_idempotent: "cleanup (cleanup s) = cleanup s"
  by (simp add: cleanup_def stopRecording_stopCamera stopRecording_not_active
      stopCamera_released mediaStreamRef_stopCamera)

lemma coherent_not_active:
  "coherent s \<Longrightarrow> \<not> recordingActive s \<Longrightarrow>
   \<not> isRecording s \<and> timerIntervalRef s = None \<and> intervals s = []"
  by (auto simp: coherent_def recordingActive_def recorderAt_def split: option.splits)

lemma unmount_p0_coherent:
  assumes "coherent s"
  shows "unmount_p0 stopTimer s = cleanup s"
proof (cases "isRecording s")
  case False
  with assms have "\<not> recordingActive s"
    by (auto simp: recordingActive_def recorderAt_def split: option.splits dest: coherent_active)
  with False show ?thesis
    by (simp add: unmount_p0_def cleanup_p0_def cleanup_def stopRecording_inactive)
next
  case True
  with assms obtain rid where "mediaRecorderRef s = Some rid" "rid < length (recorders s)"
    "rstate (recorders s ! rid) = Recording"
    by (auto simp: coherent_def split: option.splits)
  with True show ?thesis
    by (simp add: unmount_p0_def cleanup_p0_def cleanup_def stopRecording_p0_def stopRecording_def
        recorderAt_def)
qed

subsection \<open>Phases of a recording\<close>

lemma run_append:
  "run (xs @ ys) s = (case run xs s of None \<Rightarrow> None | Some t \<Rightarrow> run ys t)"
  by (induction xs arbitrary: s) simp_all

lemma run_append_Some:
  "run xs s = Some t \<Longrightarrow> run ys t = Some u \<Longrightarrow> run (xs @ ys) s = Some u"
  by (simp add: run_append)






lemma quiescent_not_flushing: "quiescent s \<Longrightarrow> \<forall>r\<in>set (recorders s). \<not> flushing r"
  by (simp add: quiescent_def list_all_iff)



subsection \<open>The elapsed label\<close>

lemma tick_publishes:
  "recordingStartTimeRef s = Some t0 \<Longrightarrow> timer (tick now s) = formatElapsed ((now - t0) div 1000)"
  by (simp add: tick_def)

lemma startRecording_keeps_label: "timer (startRecording vp9 oc now s) = timer s"
  by (cases oc) (simp_all add: startRecording_def startTimer_def Let_def split: option.splits)

lemma formatElapsed_4205: "formatElapsed 4205 = ''70:05''"
  by (simp add: formatElapsed_def String_int_def padStart_def js_rem_def nat_digits.simps digit_char_def)

lemma padStart_two_digits:
  assumes "n < 100"
  shows "padStart 2 (CHR ''0'') (nat_digits n) = [digit_char (n div 10), digit_char (n mod 10)]"
proof (cases "n < 10")
  case True
  then show ?thesis
    by (simp add: nat_digits.simps [of n] padStart_def digit_char_def)
next
  case False
  with assms have "n div 10 < 10" by simp
  with False show ?thesis
    by (simp add: nat_digits.simps [of n] nat_digits.simps [of "n div 10"] padStart_def)
qed

lemma formatElapsed_nonneg:
  assumes "0 \<le> e"
  shows "formatElapsed e =
           padStart 2 (CHR ''0'') (nat_digits (nat (e div 60))) @ '':'' @
           [digit_char (nat (e mod 60) div 10), digit_char (nat (e mod 60) mod 10)]"
proof -
  from assms have "\<not> e div 60 < 0" "nat (e mod 60) < 100"
    by (simp_all add: pos_imp_zdiv_nonneg_iff nat_less_iff not_less)
  moreover have "\<not> e mod 60 < 0"
    by (simp add: not_less)
  ultimately show ?thesis
    using assms
    by (simp add: formatElapsed_def String_int_def js_rem_def padStart_two_digits)
qed

subsection \<open>The concrete sessions, evaluated\<close>

lemma formatElapsed_5: "formatElapsed 5 = ''00:05''"
  by (simp add: formatElapsed_def String_int_def padStart_def js_rem_def nat_digits.simps digit_char_def)

lemma fragment_3: "fragment 3 = \<lparr>blob_data = [0, 0, 0], blob_type = ''video/webm; codecs=vp9''\<rparr>"
  by (simp add: fragment_def numeral_3_eq_3)

lemma toFixed2_MB_small: "n < 5243 \<Longrightarrow> toFixed2_MB n = ''0.00''"
proof -
  assume "n < 5243"
  then have "(n * 200 + 1048576) div 2097152 = 0" by simp
  then show ?thesis
    by (simp add: toFixed2_MB_def nat_digits.simps digit_char_def padStart_def)
qed

lemma cameraReady_eq: "cameraReady = \<lparr>videoRef = Some (Some 7), mediaStreamRef = Some 7, mediaRecorderRef = None,
     recordedChunksRef = [], timerIntervalRef = None, recordingStartTimeRef = None,
     isCameraActive = True, isRecording = False, recordedBlob = None,
     status = ''Click to Start Recording'', cameraError = [], timer = ''00:00'',
     recorders = [], intervals = [], nextHandle = 0, pendingGetUserMedia = 0, calls = []\<rparr>"
  by (simp add: cameraReady_def startCamera_def initial_def)

lemma recordingOnce_eq: "recordingOnce = \<lparr>videoRef = Some (Some 7), mediaStreamRef = Some 7, mediaRecorderRef = Some 0,
     recordedChunksRef = [], timerIntervalRef = Some 1, recordingStartTimeRef = Some 1000,
     isCameraActive = True, isRecording = True, recordedBlob = None,
     status = ''RECORDING...'', cameraError = [], timer = ''00:00'',
     recorders = [\<lparr>rstate = Recording, rmime = ''video/webm; codecs=vp9'', rstream = 7, flushing = False\<rparr>],
     intervals = [1], nextHandle = 1, pendingGetUserMedia = 0, calls = [RecorderStart 0 100, SetInterval 1 1000]\<rparr>"
  by (simp add: recordingOnce_def cameraReady_eq startRecording_def startTimer_def chooseMimeType_def)

lemma recordedOnce_eq: "recordedOnce = \<lparr>videoRef = Some (Some 7), mediaStreamRef = Some 7, mediaRecorderRef = Some 0,
     recordedChunksRef = [\<lparr>blob_data = [0, 0, 0], blob_type = ''video/webm; codecs=vp9''\<rparr>], timerIntervalRef = None, recordingStartTimeRef = Some 1000,
     isCameraActive = True, isRecording = False,
     recordedBlob = Some \<lparr>blob_data = [0, 0, 0], blob_type = ''video/webm; codecs=vp9''\<rparr>,
     status = ''Recording complete! Size: 0.00 MB'', cameraError = [], timer = ''00:05'',
     recorders = [\<lparr>rstate = Inactive, rmime = ''video/webm; codecs=vp9'', rstream = 7, flushing = False\<rparr>],
     intervals = [], nextHandle = 1, pendingGetUserMedia = 0,
     calls = [RecorderStart 0 100, SetInterval 1 1000, RecorderStop 0, ClearInterval 1]\<rparr>"
proof -
  have 1: "ondataavailable (fragment 3) recordingOnce = recordingOnce\<lparr>recordedChunksRef := [fragment 3]\<rparr>"
    by (simp add: ondataavailable_def fragment_def blob_size_def recordingOnce_eq)
  have 2: "tick 6000 (recordingOnce\<lparr>recordedChunksRef := [fragment 3]\<rparr>) =
      recordingOnce\<lparr>recordedChunksRef := [fragment 3], timer := ''00:05''\<rparr>"
    by (simp add: tick_def recordingOnce_eq formatElapsed_5)
  have 3: "stopRecording (recordingOnce\<lparr>recordedChunksRef := [fragment 3], timer := ''00:05''\<rparr>) =
      recordingOnce\<lparr>recordedChunksRef := [fragment 3], timer := ''00:05'', isRecording := False,
        timerIntervalRef := None, intervals := [],
        recorders := [\<lparr>rstate = Inactive, rmime = ''video/webm; codecs=vp9'', rstream = 7, flushing = True\<rparr>],
        calls := [RecorderStart 0 100, SetInterval 1 1000, RecorderStop 0, ClearInterval 1]\<rparr>"
    by (simp add: recordingOnce_eq stopRecording_def recorderAt_def recorder_stop_def stopTimer_def)
  show ?thesis
    unfolding recordedOnce_def 1 2 3
    by (simp add: recordingOnce_eq recorderAt_def onstop_def new_Blob_def blob_size_def fragment_3
        toFixed2_MB_small Let_def)
qed

lemma blob_size_fragment: "blob_size (fragment n) = n"
  by (simp add: blob_size_def fragment_def)

lemma run_cameraReady: "run [ClickStartCamera, GetUserMediaSettles (Inr 7)] initial = Some cameraReady"
  by (simp add: startCamera_call_def cameraReady_def initial_def startCamera_def)

lemma run_recordingOnce: "run toRecordingOnce initial = Some recordingOnce"
proof -
  have "run [ClickStartRecording True Started 1000] cameraReady = Some recordingOnce"
    by (simp add: recordingOnce_def cameraReady_eq)
  from run_append_Some [OF run_cameraReady this] show ?thesis
    by (simp add: toRecordingOnce_def del: run.simps)
qed

lemma run_firstRecording: "run firstRecording initial = Some recordedOnce"
proof -
  have 1: "run [DataAvailable 0 (fragment 3), IntervalTick 1 6000] recordingOnce =
      Some (tick 6000 (ondataavailable (fragment 3) recordingOnce))"
    by (simp add: recordingOnce_eq recorderAt_def ondataavailable_def blob_size_fragment)
  have 2: "run [ClickStopRecording, StopEvent 0] (tick 6000 (ondataavailable (fragment 3) recordingOnce)) =
      Some recordedOnce"
    by (simp add: recordedOnce_def recordingOnce_eq recorderAt_def ondataavailable_def
        blob_size_fragment tick_def stopRecording_def recorder_stop_def stopTimer_def)
  from run_append_Some [OF run_recordingOnce run_append_Some [OF 1 2]] show ?thesis
    by (simp add: firstRecording_def toRecordingOnce_def del: run.simps)
qed

lemma formatElapsed_1: "formatElapsed 1 = ''00:01''"
  by (simp add: formatElapsed_def String_int_def padStart_def js_rem_def nat_digits.simps digit_char_def)

lemma replaceColonDot_chars:
  "CHR '':'' \<notin> set (replaceColonDot t) \<and> CHR ''.'' \<notin> set (replaceColonDot t)"
  by (auto simp: replaceColonDot_def)

lemma quiescent_cameraReady: "quiescent cameraReady"
  by (simp add: quiescent_def cameraReady_eq)

lemma formatElapsed_1500: "formatElapsed ((2500 - 1000) div 1000) = ''00:01''"
  by (simp add: formatElapsed_1)

lemma coherent_recordingOnce: "coherent recordingOnce"
  by (simp add: coherent_def recordingOnce_eq)

text \<open>
  React runs part_000's cleanup not only at unmount but before every re-run of its
  effect, that is whenever \<open>isRecording\<close> changes, and then with the flag as captured before
  the change. Right after a recording has started this is the cleanup with \<open>False\<close>: it
  skips \<open>stopRecording\<close> and releases the camera under the running encoder. part_001 runs
  its cleanup at unmount only, and its \<open>stopRecording\<close> reads the recorder's own state.
\<close>

lemma cleanup_p0_at_record_start:
  "cleanup_p0 stopTimer False recordingOnce = stopCamera recordingOnce \<and>
   mediaStreamRef (cleanup_p0 stopTimer False recordingOnce) = None \<and>
   recordingActive (cleanup_p0 stopTimer False recordingOnce)"
  by (simp add: cleanup_p0_def stopCamera_def recordingActive_def recorderAt_def recordingOnce_eq)

lemma quiescent_recordedOnce: "quiescent recordedOnce"
  by (simp add: quiescent_def recordedOnce_eq)

subsection \<open>The overlapping recordings, evaluated\<close>

lemma blob_size_chunk: "blob_size (chunk bs) = length bs"
  by (simp add: blob_size_def chunk_def)

lemma new_Blob_chunks:
  "new_Blob (map chunk bss) ''video/webm; codecs=vp9'' = chunk (concat bss)"
  by (simp add: new_Blob_def chunk_def comp_def)

lemma stopWindow_eq:
  "stopWindow = recordingOnce
     \<lparr>recordedChunksRef := [chunk [1, 1]], isRecording := False, timerIntervalRef := None,
      intervals := [],
      recorders := [\<lparr>rstate = Inactive, rmime = ''video/webm; codecs=vp9'', rstream = 7, flushing = True\<rparr>],
      calls := [RecorderStart 0 100, SetInterval 1 1000, RecorderStop 0, ClearInterval 1]\<rparr>"
  by (simp add: stopWindow_def recordingOnce_eq ondataavailable_def blob_size_chunk stopRecording_def
      recorderAt_def recorder_stop_def stopTimer_def)

lemma secondStarted_eq:
  "secondStarted = stopWindow
     \<lparr>recordedChunksRef := [], mediaRecorderRef := Some 1, isRecording := True,
      recordingStartTimeRef := Some 2000, timerIntervalRef := Some 2, intervals := [2], nextHandle := 2,
      recorders := [\<lparr>rstate = Inactive, rmime = ''video/webm; codecs=vp9'', rstream = 7, flushing = True\<rparr>,
                    \<lparr>rstate = Recording, rmime = ''video/webm; codecs=vp9'', rstream = 7, flushing = False\<rparr>],
      calls := [RecorderStart 0 100, SetInterval 1 1000, RecorderStop 0, ClearInterval 1,
                RecorderStart 1 100, SetInterval 2 1000]\<rparr>"
  by (simp add: secondStarted_def stopWindow_eq recordingOnce_eq startRecording_def startTimer_def
      chooseMimeType_def)

lemma firstFinalized_eq:
  "firstFinalized = secondStarted
     \<lparr>recordedChunksRef := [chunk [2]], recordedBlob := Some (chunk [2]),
      status := ''Recording complete! Size: 0.00 MB'',
      recorders := [\<lparr>rstate = Inactive, rmime = ''video/webm; codecs=vp9'', rstream = 7, flushing = False\<rparr>,
                    \<lparr>rstate = Recording, rmime = ''video/webm; codecs=vp9'', rstream = 7, flushing = False\<rparr>]\<rparr>"
proof -
  have "new_Blob [chunk [2]] ''video/webm; codecs=vp9'' = chunk [2]"
    using new_Blob_chunks [of "[[2]]"] by simp
  then show ?thesis
    by (simp add: firstFinalized_def secondStarted_eq stopWindow_eq recordingOnce_eq
        ondataavailable_def blob_size_chunk recorderAt_def onstop_def toFixed2_MB_small Let_def)
qed

lemma secondStopped_eq:
  "secondStopped = firstFinalized
     \<lparr>recordedChunksRef := [chunk [2], chunk [3, 4]], isRecording := False, timerIntervalRef := None,
      intervals := [],
      recorders := [\<lparr>rstate = Inactive, rmime = ''video/webm; codecs=vp9'', rstream = 7, flushing = False\<rparr>,
                    \<lparr>rstate = Inactive, rmime = ''video/webm; codecs=vp9'', rstream = 7, flushing = True\<rparr>],
      calls := [RecorderStart 0 100, SetInterval 1 1000, RecorderStop 0, ClearInterval 1,
                RecorderStart 1 100, SetInterval 2 1000, RecorderStop 1, ClearInterval 2]\<rparr>"
  by (simp add: secondStopped_def firstFinalized_eq secondStarted_eq stopWindow_eq recordingOnce_eq
      ondataavailable_def blob_size_chunk stopRecording_def recorderAt_def recorder_stop_def
      stopTimer_def)

lemma secondFinalized_eq:
  "secondFinalized = secondStopped
     \<lparr>recordedBlob := Some (chunk [2, 3, 4]),
      recorders := [\<lparr>rstate = Inactive, rmime = ''video/webm; codecs=vp9'', rstream = 7, flushing = False\<rparr>,
                    \<lparr>rstate = Inactive, rmime = ''video/webm; codecs=vp9'', rstream = 7, flushing = False\<rparr>]\<rparr>"
proof -
  have "new_Blob [chunk [2], chunk [3, 4]] ''video/webm; codecs=vp9'' = chunk [2, 3, 4]"
    using new_Blob_chunks [of "[[2], [3, 4]]"] by simp
  then show ?thesis
    by (simp add: secondFinalized_def secondStopped_eq firstFinalized_eq secondStarted_eq stopWindow_eq
        recordingOnce_eq recorderAt_def onstop_def toFixed2_MB_small blob_size_chunk Let_def)
qed

lemma run_toStopWindow: "run toStopWindow initial = Some stopWindow"
proof -
  have "run [DataAvailable 0 (chunk [1, 1]), ClickStopRecording] recordingOnce = Some stopWindow"
    by (simp add: stopWindow_def recordingOnce_eq recorderAt_def ondataavailable_def blob_size_chunk)
  from run_append_Some [OF run_recordingOnce this] show ?thesis
    by (simp add: toStopWindow_def)
qed

lemma run_secondStarted:
  "run (toStopWindow @ [ClickStartRecording True Started 2000]) initial = Some secondStarted"
proof -
  have "run [ClickStartRecording True Started 2000] stopWindow = Some secondStarted"
    by (simp add: secondStarted_def stopWindow_eq recordingOnce_eq)
  from run_append_Some [OF run_toStopWindow this] show ?thesis .
qed

lemma run_toFirstFinalized: "run toFirstFinalized initial = Some firstFinalized"
proof -
  have "run [DataAvailable 0 (chunk [2]), StopEvent 0] secondStarted = Some firstFinalized"
    by (simp add: firstFinalized_def secondStarted_eq stopWindow_eq recordingOnce_eq recorderAt_def
        ondataavailable_def blob_size_chunk)
  from run_append_Some [OF run_secondStarted this] show ?thesis
    by (simp add: toFirstFinalized_def del: run.simps)
qed

lemma run_toSecondStopped: "run toSecondStopped initial = Some secondStopped"
proof -
  have "run [DataAvailable 1 (chunk [3, 4]), ClickStopRecording] firstFinalized = Some secondStopped"
    by (simp add: secondStopped_def firstFinalized_eq secondStarted_eq stopWindow_eq recordingOnce_eq
        recorderAt_def ondataavailable_def blob_size_chunk)
  from run_append_Some [OF run_toFirstFinalized this] show ?thesis
    by (simp add: toSecondStopped_def del: run.simps)
qed

lemma run_secondFinalized: "run (toSecondStopped @ [StopEvent 1]) initial = Some secondFinalized"
proof -
  have "run [StopEvent 1] secondStopped = Some secondFinalized"
    by (simp add: secondFinalized_def secondStopped_eq firstFinalized_eq secondStarted_eq stopWindow_eq
        recordingOnce_eq recorderAt_def)
  from run_append_Some [OF run_toSecondStopped this] show ?thesis .
qed

subsection \<open>What holds without the overlap\<close>

text \<open>
  What does hold of the artifact. From a component that holds a camera and has no encoder
  recording or awaiting its \<open>stop\<close> event, start a recording and let anything happen except
  a further start; when the encoder's \<open>stop\<close> event is due, the artifact \<open>onstop\<close> stores
  is the concatenation, in order of delivery, of the fragments this encoder delivered
  since the start, and its size is the sum of the sizes of the non-empty ones.
\<close>

lemma artifact_without_overlapping_start:
  assumes "isCameraActive s" and "mediaStreamRef s \<noteq> None" and "quiescent s"
    and "run evs (startRecording vp9 Started now s) = Some t"
    and "\<not> list_ex isStartRecording evs"
    and "offered t (StopEvent (length (recorders s)))"
    and "Unmount \<notin> set evs"
  shows "recordedBlob (fire (StopEvent (length (recorders s))) t) =
           Some (new_Blob (filter (\<lambda>d. 0 < blob_size d) (delivered (length (recorders s)) evs))
                  (chooseMimeType vp9)) \<and>
         map_option blob_data (recordedBlob (fire (StopEvent (length (recorders s))) t)) =
           Some (concat (map blob_data (delivered (length (recorders s)) evs))) \<and>
         map_option blob_size (recordedBlob (fire (StopEvent (length (recorders s))) t)) =
           Some (sum_list (map blob_size
                   (filter (\<lambda>d. 0 < blob_size d) (delivered (length (recorders s)) evs))))"
proof -
  let ?rid = "length (recorders s)"
  let ?s1 = "startRecording vp9 Started now s"
  let ?ds = "filter (\<lambda>d. 0 < blob_size d) (delivered ?rid evs)"
  from assms(1,2) have len: "length (recorders ?s1) = Suc ?rid"
    and chunks: "recordedChunksRef ?s1 = []"
    and mime: "rmime (recorders ?s1 ! ?rid) = chooseMimeType vp9"
    and old: "\<forall>i<?rid. recorders ?s1 ! i = recorders s ! i"
    by (auto simp: startRecording_def startTimer_def Let_def nth_append)
  from assms(3) have "\<forall>i<?rid. rstate (recorders s ! i) = Inactive \<and> \<not> flushing (recorders s ! i)"
    by (simp add: quiescent_def list_all_length)
  with old have quiet: "\<forall>i<?rid. rstate (recorders ?s1 ! i) = Inactive \<and> \<not> flushing (recorders ?s1 ! i)"
    by simp
  from cycle_chunks [OF assms(4,5) len quiet] chunks mime
  have t: "length (recorders t) = Suc ?rid" "rmime (recorders t ! ?rid) = chooseMimeType vp9"
    "recordedChunksRef t = ?ds"
    by simp_all
  then have blob: "recordedBlob (fire (StopEvent ?rid) t) = Some (new_Blob ?ds (chooseMimeType vp9))"
    by (simp add: recorderAt_def onstop_def Let_def)
  moreover have "blob_data (new_Blob ?ds (chooseMimeType vp9)) = concat (map blob_data (delivered ?rid evs))"
    by (simp add: new_Blob_def concat_nonempty)
  moreover have "blob_size (new_Blob ?ds (chooseMimeType vp9)) = sum_list (map blob_size ?ds)"
    using length_concat_blobs [of ?ds] by (simp add: new_Blob_def blob_size_def)
  ultimately show ?thesis by simp
qed

text \<open>
  The first scenario of the specification: fragments of 10, 0, 20, 5 and 0 bytes give an
  artifact of 35 bytes and the state \<open>Recorded\<close>.
\<close>

lemma scenarioA_artifact:
  "isCameraActive cameraReady \<and> mediaStreamRef cameraReady \<noteq> None \<and> quiescent cameraReady \<and>
   \<not> list_ex isStartRecording scenarioA \<and>
   (case run scenarioA (startRecording True Started 1000 cameraReady) of
      None \<Rightarrow> False
    | Some t \<Rightarrow>
        offered t (StopEvent 0) \<and>
        map_option blob_size (recordedBlob (fire (StopEvent 0) t)) = Some 35 \<and>
        sessionState (fire (StopEvent 0) t) = Recorded)"
proof -
  have h1: "isCameraActive cameraReady" and h2: "mediaStreamRef cameraReady \<noteq> None"
    and len: "length (recorders cameraReady) = 0"
    by (simp_all add: cameraReady_eq)
  have h5: "\<not> list_ex isStartRecording scenarioA"
    by (simp add: scenarioA_def)
  obtain t where r: "run scenarioA (startRecording True Started 1000 cameraReady) = Some t"
    and o: "offered t (StopEvent 0)" and st: "isCameraActive t" "\<not> isRecording t"
    by (simp add: scenarioA_def recordingOnce_def [symmetric] recordingOnce_eq recorderAt_def
        ondataavailable_def blob_size_fragment tick_def formatElapsed_1500 stopRecording_def recorder_stop_def
        stopTimer_def)
  from o len have o': "offered t (StopEvent (length (recorders cameraReady)))"
    by simp
  have h7: "Unmount \<notin> set scenarioA"
    by (simp add: scenarioA_def)
  note a = artifact_without_overlapping_start [OF h1 h2 quiescent_cameraReady r h5 o' h7]
  from a [THEN conjunct2, THEN conjunct2]
  have sz: "map_option blob_size (recordedBlob (fire (StopEvent 0) t)) = Some 35"
    unfolding len scenarioA_def by (simp add: blob_size_fragment del: fire.simps)
  moreover from o st have "isCameraActive (fire (StopEvent 0) t)" "\<not> isRecording (fire (StopEvent 0) t)"
    by (simp_all add: onstop_def Let_def split: option.splits)
  with sz have "sessionState (fire (StopEvent 0) t) = Recorded"
    by (auto simp add: sessionState_def simp del: fire.simps)
  ultimately show ?thesis
    using h1 h2 h5 quiescent_cameraReady r o
    by (simp add: scenarioA_def blob_size_fragment)
qed

text \<open>
  What does hold of the cleanup. On a component whose flags, refs and browser objects
  agree, the cleanup of part_001 ends with no stream held, no encoder active, the
  recording flag down and no timer; it calls \<open>stop()\<close> on the recorder, \<open>clearInterval\<close> and
  \<open>stop()\<close> on the tracks in this order; and the cleanup of part_000, run with the current
  flag, does the same. The agreement holds after every run of part_001 from the first
  render in which no recorder is stopped by the browser (\<open>coherent_run\<close>).
\<close>

lemma cleanup_on_coherent:
  assumes "coherent s"
  shows "sessionState (cleanup s) = Idle \<and>
         mediaStreamRef (cleanup s) = None \<and>
         \<not> isRecording (cleanup s) \<and>
         \<not> encoderActive (cleanup s) \<and>
         timerIntervalRef (cleanup s) = None \<and>
         intervals (cleanup s) = [] \<and>
         cleanup (cleanup s) = cleanup s \<and>
         calls (cleanup s) =
           calls s @
           (case mediaRecorderRef s of None \<Rightarrow> []
            | Some rid \<Rightarrow> if isRecording s then [RecorderStop rid] else []) @
           (case timerIntervalRef s of None \<Rightarrow> [] | Some h \<Rightarrow> [ClearInterval h]) @
           (case mediaStreamRef s of None \<Rightarrow> [] | Some st \<Rightarrow> [TrackStop st]) \<and>
         unmount_p0 stopTimer s = cleanup s"
proof -
  let ?s1 = "stopRecording s"
  have c1: "coherent ?s1" using assms by (rule coherent_stopRecording)
  have na: "\<not> recordingActive ?s1" by (rule stopRecording_not_active)
  from coherent_not_active [OF c1 na]
  have off: "\<not> isRecording ?s1" "timerIntervalRef ?s1 = None" "intervals ?s1 = []"
    by simp_all
  from c1 off(1) have idle: "\<forall>i<length (recorders ?s1). rstate (recorders ?s1 ! i) = Inactive"
    by (rule coherent_idle_encoders)
  have cam: "isCameraActive ?s1 \<longleftrightarrow> mediaStreamRef ?s1 \<noteq> None"
    using c1 by (simp add: coherent_def)
  have fields: "mediaStreamRef (cleanup s) = None" "\<not> isCameraActive (cleanup s)"
    "\<not> isRecording (cleanup s)" "timerIntervalRef (cleanup s) = None"
    "intervals (cleanup s) = []" "recorders (cleanup s) = recorders ?s1"
    using off cam by (simp_all add: cleanup_def stopCamera_def split: option.splits)
  have enc: "\<not> encoderActive (cleanup s)"
    using idle fields(6) by (simp add: encoderActive_def list_ex_length)
  have log1: "calls ?s1 = calls s @
      (case mediaRecorderRef s of None \<Rightarrow> []
       | Some rid \<Rightarrow> if isRecording s then [RecorderStop rid] else []) @
      (case timerIntervalRef s of None \<Rightarrow> [] | Some h \<Rightarrow> [ClearInterval h])"
  proof (cases "recordingActive s")
    case False
    with coherent_not_active [OF assms] show ?thesis
      by (simp add: stopRecording_inactive split: option.splits)
  next
    case True
    then obtain rid where ref: "mediaRecorderRef s = Some rid" and lt: "rid < length (recorders s)"
      and act: "rstate (recorders s ! rid) \<noteq> Inactive"
      by (rule recordingActiveE)
    from coherent_active [OF assms lt act] stopRecording_active(5) [OF ref lt act] ref
    show ?thesis by simp
  qed
  have log: "calls (cleanup s) = calls ?s1 @
      (case mediaStreamRef s of None \<Rightarrow> [] | Some st \<Rightarrow> [TrackStop st])"
  proof -
    have "mediaStreamRef ?s1 = mediaStreamRef s"
      by (cases "recordingActive s")
        (auto simp: stopRecording_inactive stopRecording_active(6) elim: recordingActiveE)
    then show ?thesis
      by (simp add: cleanup_def stopCamera_def split: option.splits)
  qed
  from fields enc log log1 cleanup_idempotent [of s] unmount_p0_coherent [OF assms]
  show ?thesis by (simp add: sessionState_def)
qed

text \<open>
  While an encoder is recording the page does not offer Start Recording, in every run of
  part_001 from the first render in which no recorder is stopped by the browser.
\<close>

lemma start_not_offered_while_recording:
  assumes "run evs initial = Some s" and "\<not> list_ex isRecorderEnds evs"
    and "offered s (ClickStartRecording vp9 oc now)"
  shows "\<not> encoderActive s"
proof -
  from coherent_initial assms(1,2) have c: "coherent s" by (rule coherent_run)
  from assms(3) have "\<not> isRecording s" by simp
  with c have "\<forall>i<length (recorders s). rstate (recorders s ! i) = Inactive"
    by (rule coherent_idle_encoders)
  then show ?thesis
    by (simp add: encoderActive_def list_ex_length)
qed


text \<open>Only a start and a \<open>stop\<close> event write the artifact.\<close>

lemma recordedBlob_fire:
  "\<not> isStartRecording e \<Longrightarrow> \<not> isStopEvent e \<Longrightarrow> recordedBlob (fire e s) = recordedBlob s"
  by (cases e) (simp_all add: handler_defs split: option.splits sum.splits)

section \<open>The claims\<close>

text \<open>
  C1. The artifact after a start that overlaps the previous recording's finalization.
  After Stop Recording the page offers Start Recording again although the stopped
  encoder's last fragment and \<open>stop\<close> event are still to come, and \<open>startRecording\<close>
  empties the one buffer both recordings use. In the run below the first encoder
  delivers the bytes 1, 1 and then 2, yet its artifact is the byte 2 alone; the second
  encoder delivers 3, 4, yet its artifact is 2, 3, 4. Without such an overlap the
  artifact is what the encoder delivered (\<open>artifact_without_overlapping_start\<close>).
  The handlers are the same text in part_000 and part_001.
\<close>

theorem artifact_after_overlapping_start:
  "delivered 0 (toSecondStopped @ [StopEvent 1]) = [chunk [1, 1], chunk [2]] \<and>
   delivered 1 (toSecondStopped @ [StopEvent 1]) = [chunk [3, 4]] \<and>
   map_option recordedBlob (run toFirstFinalized initial) = Some (Some (chunk [2])) \<and>
   map_option recordedBlob (run (toSecondStopped @ [StopEvent 1]) initial) =
     Some (Some (chunk [2, 3, 4]))"
proof -
  have "delivered 0 (toSecondStopped @ [StopEvent 1]) = [chunk [1, 1], chunk [2]]"
    and "delivered 1 (toSecondStopped @ [StopEvent 1]) = [chunk [3, 4]]"
    by (simp_all add: toSecondStopped_def toFirstFinalized_def toStopWindow_def toRecordingOnce_def)
  then show ?thesis
    unfolding run_toFirstFinalized run_secondFinalized
    by (simp add: firstFinalized_eq secondFinalized_eq)
qed

text \<open>
  C2. Two teardowns that leave something alive. In part_000 the cleanup effect depends
  on \<open>isRecording\<close>, so React runs it when a recording starts, with the flag captured
  before: it skips \<open>stopRecording\<close> and stops the tracks of the stream while the encoder
  records and the timer runs. In part_001 \<open>stopTimer\<close> is called only inside the guard of
  \<open>stopRecording\<close>: when the browser has stopped the recorder, the cleanup at unmount
  releases the camera but leaves the recording flag up and the interval timer live.
  On components whose flags, refs and browser objects agree the cleanup of part_001 does
  all of C2 (\<open>cleanup_on_coherent\<close>), and it is idempotent on every component
  (\<open>cleanup_idempotent\<close>).
\<close>

theorem cleanup_leaves_recording_alive:
  "map_option (\<lambda>s. (mediaStreamRef s, isCameraActive s, isRecording s, recordingActive s,
                     timerIntervalRef s, intervals s, calls s))
     (run_p0 stopTimer toRecordingOnce initial) =
     Some (None, False, True, True, Some 1, [1],
           [RecorderStart 0 100, SetInterval 1 1000, TrackStop 7]) \<and>
   map_option (\<lambda>s. (mediaStreamRef s, isCameraActive s, isRecording s, recordingActive s,
                     timerIntervalRef s, intervals s, calls s))
     (run (toRecordingOnce @ [RecorderEnds 0, StopEvent 0, Unmount]) initial) =
     Some (None, False, True, False, Some 1, [1],
           [RecorderStart 0 100, SetInterval 1 1000, TrackStop 7])"
proof -
  have p0: "run_p0 stopTimer toRecordingOnce initial = Some (stopCamera recordingOnce)"
  proof -
    have a: "fire_p0 stopTimer ClickStartCamera initial = startCamera_call initial"
      by (simp add: effectRerun_p0_def startCamera_call_def)
    have b: "fire_p0 stopTimer (GetUserMediaSettles (Inr 7)) (startCamera_call initial) = cameraReady"
      by (simp add: effectRerun_p0_def startCamera_call_def cameraReady_def startCamera_def initial_def)
    have "fire_p0 stopTimer (ClickStartRecording True Started 1000) cameraReady =
        effectRerun_p0 stopTimer (isRecording cameraReady) recordingOnce"
      by (simp add: recordingOnce_def)
    moreover have "\<not> isRecording cameraReady" and "isRecording recordingOnce"
      by (simp_all add: cameraReady_eq recordingOnce_eq)
    ultimately have c: "fire_p0 stopTimer (ClickStartRecording True Started 1000) cameraReady =
        stopCamera recordingOnce"
      by (simp add: effectRerun_p0_def cleanup_p0_def)
    have o: "offered initial ClickStartCamera"
      "offered (startCamera_call initial) (GetUserMediaSettles (Inr 7))"
      "offered cameraReady (ClickStartRecording True Started 1000)"
      by (simp_all add: initial_def startCamera_call_def cameraReady_eq)
    show ?thesis
      by (simp add: toRecordingOnce_def a b c o del: fire_p0.simps offered.simps)
  qed
  have "run [RecorderEnds 0, StopEvent 0, Unmount] recordingOnce =
      Some (cleanup (fire (StopEvent 0) (recorder_ends 0 recordingOnce)\<lparr>videoRef := None\<rparr>))"
    by (simp add: recordingOnce_eq recorderAt_def recorder_ends_def)
  from run_append_Some [OF run_recordingOnce this]
  have p1: "run (toRecordingOnce @ [RecorderEnds 0, StopEvent 0, Unmount]) initial =
      Some (cleanup (fire (StopEvent 0) (recorder_ends 0 recordingOnce)\<lparr>videoRef := None\<rparr>))" .
  show ?thesis
    unfolding p0 p1
    by (simp add: recordingOnce_eq stopCamera_def recordingActive_def recorderAt_def
        recorder_ends_def onstop_def cleanup_def stopRecording_def Let_def)
qed

text \<open>
  C3. \<open>stopRecording\<close> with no recording active returns the component as it is: no field
  changes and no browser call is made, so nothing can throw. part_001 judges activity by
  the recorder's state, part_000 by the \<open>isRecording\<close> its closure holds and by whether a
  recorder exists.
\<close>

theorem stopRecording_without_recording:
  "(\<not> recordingActive s \<longrightarrow> stopRecording s = s) \<and>
   (\<not> ir \<or> mediaRecorderRef s = None \<longrightarrow> stopRecording_p0 st ir s = s)"
  by (simp add: recordingActive_def stopRecording_def stopRecording_p0_def
      split: option.splits)

text \<open>Stop after the first recording has finished, and stop before any recording.\<close>

theorem stopRecording_without_recording_witness:
  "\<not> recordingActive recordedOnce \<and> \<not> isRecording recordedOnce \<and>
   stopRecording recordedOnce = recordedOnce \<and>
   stopRecording_p0 stopTimer (isRecording recordedOnce) recordedOnce = recordedOnce \<and>
   stopRecording initial = initial \<and> stopRecording_p0 stopTimer True initial = initial"
proof -
  have "\<not> recordingActive recordedOnce" "\<not> isRecording recordedOnce" "\<not> recordingActive initial"
    by (simp_all add: recordingActive_def recorderAt_def recordedOnce_eq initial_def)
  with stopRecording_without_recording [where s = recordedOnce and ir = False and st = stopTimer]
    stopRecording_without_recording [where s = initial and ir = True and st = stopTimer]
  show ?thesis by (simp add: initial_def [THEN arg_cong [where f = mediaRecorderRef]])
qed

text \<open>
  C4. When \<open>getUserMedia\<close> rejects, \<open>startCamera\<close> stores no stream, leaves the camera flag
  and the video element alone, keeps the session state (so \<open>Idle\<close> stays \<open>Idle\<close>), and sets
  the error shown to \<open>Camera Error: \<close> followed by the message of the rejection.
\<close>

theorem startCamera_failure:
  "mediaStreamRef (startCamera (Inl e) s) = mediaStreamRef s \<and>
   isCameraActive (startCamera (Inl e) s) = isCameraActive s \<and>
   videoRef (startCamera (Inl e) s) = videoRef s \<and>
   sessionState (startCamera (Inl e) s) = sessionState s \<and>
   cameraError (startCamera (Inl (JsError m)) s) = ''Camera Error: '' @ m"
  by (simp add: startCamera_def sessionState_def)

text \<open>The second scenario of the specification: permission denied on the first click.\<close>

theorem startCamera_failure_witness:
  "sessionState (startCamera (Inl (JsError ''Permission denied'')) initial) = Idle \<and>
   mediaStreamRef (startCamera (Inl (JsError ''Permission denied'')) initial) = None \<and>
   cameraError (startCamera (Inl (JsError ''Permission denied'')) initial) =
     ''Camera Error: Permission denied''"
  using startCamera_failure [of "JsError ''Permission denied''" initial "''Permission denied''"]
  by (simp add: initial_def sessionState_def)

text \<open>
  C5. The label after a second start. \<open>startRecording\<close> and \<open>startTimer\<close> never write
  \<open>timer\<close> (\<open>startRecording_keeps_label\<close>); only a tick does. The first recording ends
  with the label \<open>00:05\<close>. The page then offers Start Recording, and right after that
  click the label is still \<open>00:05\<close>; the first tick of the new recording, one second in,
  puts it back to \<open>00:01\<close>. The ticks themselves publish the whole seconds since the
  start in the stated format (\<open>tick_publishes\<close>, \<open>formatElapsed_nonneg\<close>,
  \<open>formatElapsed_4205\<close>).
\<close>

theorem timer_label_carried_over:
  "map_option timer (run firstRecording initial) = Some ''00:05'' \<and>
   map_option timer (run (firstRecording @ [ClickStartRecording True Started 9000]) initial) =
     Some ''00:05'' \<and>
   map_option timer
     (run (firstRecording @ [ClickStartRecording True Started 9000, IntervalTick 2 10000]) initial) =
     Some ''00:01''"
  by (simp add: run_append run_firstRecording recordedOnce_eq startRecording_def startTimer_def
      tick_def formatElapsed_1)

text \<open>
  C6 as stated fails. \<open>stopTimer\<close> on the running first recording: the handle is gone,
  the start instant 1000 is still stored.
\<close>

theorem stopTimer_keeps_start_instant:
  "timerIntervalRef (stopTimer recordingOnce) = None \<and>
   recordingStartTimeRef (stopTimer recordingOnce) = Some 1000"
  by (simp add: stopTimer_def recordingOnce_eq)

text \<open>
  C6, as the code has it. \<open>stopTimer\<close> clears the handle in \<open>timerIntervalRef\<close> and cancels
  that interval with \<open>clearInterval\<close>; it leaves \<open>recordingStartTimeRef\<close> as it was; a
  second \<open>stopTimer\<close> changes nothing.
\<close>

theorem stopTimer_cancels:
  "timerIntervalRef (stopTimer s) = None \<and>
   (\<forall>h. timerIntervalRef s = Some h \<longrightarrow>
      h \<notin> set (intervals (stopTimer s)) \<and> calls (stopTimer s) = calls s @ [ClearInterval h]) \<and>
   recordingStartTimeRef (stopTimer s) = recordingStartTimeRef s \<and>
   stopTimer (stopTimer s) = stopTimer s"
  by (simp add: stopTimer_def split: option.splits)

text \<open>The timer of the running first recording.\<close>

theorem stopTimer_cancels_witness:
  "timerIntervalRef recordingOnce = Some 1 \<and> intervals recordingOnce = [1] \<and>
   timerIntervalRef (stopTimer recordingOnce) = None \<and>
   intervals (stopTimer recordingOnce) = [] \<and>
   calls (stopTimer recordingOnce) = calls recordingOnce @ [ClearInterval 1] \<and>
   stopTimer (stopTimer recordingOnce) = stopTimer recordingOnce"
proof -
  have "timerIntervalRef recordingOnce = Some 1" "intervals recordingOnce = [1]"
    by (simp_all add: recordingOnce_eq)
  with stopTimer_cancels [of recordingOnce] show ?thesis
    by (simp add: stopTimer_def)
qed

text \<open>
  C7. A start while the previous recording is not finalized. After Stop Recording the
  first encoder still awaits its \<open>stop\<close> event and the buffer holds its bytes 1, 1; the
  page offers Start Recording. The click raises nothing: it empties the buffer, builds
  and starts a second encoder beside the first and reports \<open>RECORDING...\<close>. The first
  encoder's \<open>stop\<close> event then stores an artifact with no bytes. While an encoder is
  recording the page does not offer the click (\<open>start_not_offered_while_recording\<close>);
  \<open>startRecording\<close> itself checks the camera only.
\<close>

theorem start_before_stop_event:
  "map_option (\<lambda>s. (offered s (ClickStartRecording True Started 2000), offered s (StopEvent 0),
                     recordedChunksRef s, map rstate (recorders s)))
     (run toStopWindow initial) =
     Some (True, True, [chunk [1, 1]], [Inactive]) \<and>
   map_option (\<lambda>s. (offered s (StopEvent 0), recordedChunksRef s, map rstate (recorders s), status s))
     (run (toStopWindow @ [ClickStartRecording True Started 2000]) initial) =
     Some (True, [], [Inactive, Recording], ''RECORDING...'') \<and>
   map_option recordedBlob
     (run (toStopWindow @ [ClickStartRecording True Started 2000, StopEvent 0]) initial) =
     Some (Some (chunk []))"
proof -
  have "run [StopEvent 0] secondStarted = Some (fire (StopEvent 0) secondStarted)"
    by (simp add: secondStarted_eq stopWindow_eq recordingOnce_eq recorderAt_def)
  from run_append_Some [OF run_secondStarted this]
  have r: "run (toStopWindow @ [ClickStartRecording True Started 2000, StopEvent 0]) initial =
      Some (fire (StopEvent 0) secondStarted)"
    by simp
  have b: "new_Blob [] ''video/webm; codecs=vp9'' = chunk []"
    using new_Blob_chunks [of "[]"] by simp
  show ?thesis
    unfolding r run_toStopWindow run_secondStarted
    by (simp add: b secondStarted_eq stopWindow_eq recordingOnce_eq recorderAt_def onstop_def Let_def)
qed

text \<open>
  C8 as stated fails. A download after the first recording: the status line changes from
  the size report to \<open>Video downloaded successfully!\<close>.
\<close>

theorem download_changes_status:
  "recordedBlob recordedOnce \<noteq> None \<and>
   status recordedOnce = ''Recording complete! Size: 0.00 MB'' \<and>
   status (downloadVideo ''2024-01-15T10:30:00.000Z'' recordedOnce) = ''Video downloaded successfully!''"
  by (simp add: recordedOnce_eq downloadVideo_def)

text \<open>
  C8, as the code has it. Without an artifact \<open>downloadVideo\<close> returns the component as
  it is. With one it changes the status line and nothing else of the component (stream,
  recorder, artifact, flags, labels and session state stay), and hands the browser the
  artifact under the name \<open>presentation_\<close>, then the timestamp with every \<open>:\<close> and \<open>.\<close>
  replaced by \<open>-\<close>, then \<open>.webm\<close>. The extension is fixed; both formats \<open>chooseMimeType\<close>
  can return are WebM. A second download again changes the status line only.
\<close>

theorem download_reads_artifact:
  "(recordedBlob s = None \<longrightarrow> downloadVideo isoString s = s) \<and>
   (downloadVideo isoString s)\<lparr>status := status s, calls := calls s\<rparr> = s \<and>
   sessionState (downloadVideo isoString s) = sessionState s \<and>
   (\<forall>b. recordedBlob s = Some b \<longrightarrow>
      status (downloadVideo isoString s) = ''Video downloaded successfully!'' \<and>
      calls (downloadVideo isoString s) =
        calls s @ [CreateObjectURL b, AnchorClick (downloadName isoString), SetTimeout 100]) \<and>
   downloadName isoString = ''presentation_'' @ replaceColonDot isoString @ ''.webm'' \<and>
   length (replaceColonDot isoString) = length isoString \<and>
   (\<forall>i<length isoString. replaceColonDot isoString ! i =
      (if isoString ! i = CHR '':'' \<or> isoString ! i = CHR ''.'' then CHR ''-'' else isoString ! i)) \<and>
   (downloadVideo isoString' (downloadVideo isoString s))\<lparr>status := status s, calls := calls s\<rparr> = s"
  by (simp add: downloadVideo_def sessionState_def downloadName_def replaceColonDot_def
      split: option.splits)

text \<open>A download before any recording and one after the first recording.\<close>

theorem download_reads_artifact_witness:
  "downloadVideo ''2024-01-15T10:30:00.000Z'' initial = initial \<and>
   recordedBlob recordedOnce = Some \<lparr>blob_data = [0, 0, 0], blob_type = ''video/webm; codecs=vp9''\<rparr> \<and>
   recordedBlob (downloadVideo ''2024-01-15T10:30:00.000Z'' recordedOnce) = recordedBlob recordedOnce \<and>
   sessionState (downloadVideo ''2024-01-15T10:30:00.000Z'' recordedOnce) = Recorded \<and>
   calls (downloadVideo ''2024-01-15T10:30:00.000Z'' recordedOnce) =
     calls recordedOnce @
     [CreateObjectURL \<lparr>blob_data = [0, 0, 0], blob_type = ''video/webm; codecs=vp9''\<rparr>,
      AnchorClick ''presentation_2024-01-15T10-30-00-000Z.webm'', SetTimeout 100]"
proof -
  have n: "recordedBlob initial = None" by (simp add: initial_def)
  have b: "recordedBlob recordedOnce = Some \<lparr>blob_data = [0, 0, 0], blob_type = ''video/webm; codecs=vp9''\<rparr>"
    by (simp add: recordedOnce_eq)
  have nm: "downloadName ''2024-01-15T10:30:00.000Z'' = ''presentation_2024-01-15T10-30-00-000Z.webm''"
    by (simp add: downloadName_def replaceColonDot_def)
  have st: "sessionState recordedOnce = Recorded"
    by (simp add: sessionState_def recordedOnce_eq)
  from download_reads_artifact [of initial "''2024-01-15T10:30:00.000Z''"]
    download_reads_artifact [of recordedOnce "''2024-01-15T10:30:00.000Z''"] n b nm st
  show ?thesis
    by (simp add: downloadVideo_def)
qed




text \<open>
  C10. A stop with an artifact already there. In the overlapping run of C1 the first
  encoder's \<open>stop\<close> event arrives while the second recording runs and stores an artifact
  during it. When Stop Recording is then clicked, the recording flag is down, no
  recorder is active, the timer handle is cleared and the second encoder's \<open>stop\<close> event is
  due, but an artifact is present; nothing but a new start or that \<open>stop\<close> event writes
  the artifact (\<open>recordedBlob_fire\<close>), so it is present through the whole interval. A
  recording started while no encoder awaits its \<open>stop\<close> event does have the interval
  without an artifact (\<open>recording_without_artifact\<close>).
\<close>

theorem artifact_present_after_stop:
  "map_option (\<lambda>s. (isRecording s, hasArtifact s)) (run toFirstFinalized initial) =
     Some (True, True) \<and>
   map_option (\<lambda>s. (isRecording s, recordingActive s, timerIntervalRef s, hasArtifact s,
                     offered s (StopEvent 1)))
     (run toSecondStopped initial) =
     Some (False, False, None, True, True)"
  unfolding run_toFirstFinalized run_toSecondStopped
  by (simp add: secondStopped_eq firstFinalized_eq secondStarted_eq stopWindow_eq recordingOnce_eq
      hasArtifact_def recordingActive_def recorderAt_def)

end
